theory Spec2Isabelle
  imports Complex_Main "HOL-Library.Sublist"
begin

section \<open>Data model (jira_mcp_server/models.py, config.py)\<close>

text \<open>
  The RAG classifier and the weekly report categorizer of the Jira reporting server are
  embedded here as HOL functions. Python \<open>str\<close> values are HOL strings; the model covers
  ASCII text, where \<open>str.lower\<close> maps the letters A to Z to a to z and keeps every
  other character. Python integers are \<open>int\<close>, lengths and counters are \<open>nat\<close>.
\<close>

datatype RAGStatus = RED | AMBER | GREEN

record IssueStatus =
  status_id :: string
  name :: string
  category :: string

record User =
  account_id :: string
  display_name :: string

text \<open>
  A Python \<open>date\<close> is its proleptic ordinal, an \<open>int\<close>. A \<open>datetime\<close> is either
  naive or timezone-aware; both carry a number of microseconds, counted from 00:00 of the
  day before ordinal 1 (an aware value normalised to UTC). An ordering comparison between
  a naive and an aware value raises \<open>TypeError\<close>.
\<close>

datatype datetime = Naive int | Aware int

text \<open>
  The fields of \<open>Issue\<close> that the classifier and the categorizer read or write. The
  remaining fields of the class (summary, description, issue type, reporter, created,
  components, story points, sprint, url) are never looked at by the functions below.
\<close>

record Issue =
  key :: string
  status :: IssueStatus
  priority :: string
  assignee :: "User option"
  updated :: datetime
  resolved :: "datetime option"
  labels :: "string list"
  blockers :: "string list"
  rag_status :: "RAGStatus option"
  rag_reason :: "string option"
  days_in_status :: "int option"
  is_blocked :: bool

record RAGConfig =
  green_max_days_in_status :: int
  yellow_max_days_in_status :: int
  red_priority_levels :: "string list"
  blocked_statuses :: "string list"

text \<open>The field defaults of class \<open>RAGConfig\<close> in jira_mcp_server/config.py.\<close>

definition RAGConfig_default :: RAGConfig where
  "RAGConfig_default =
     \<lparr>green_max_days_in_status = 3,
      yellow_max_days_in_status = 7,
      red_priority_levels = [''Highest'', ''High''],
      blocked_statuses = [''Blocked'', ''Waiting'']\<rparr>"

text \<open>
  \<open>RAGClassificationResult\<close> is a named tuple (status, reason, confidence = 1.0); its
  first field is called \<open>rag\<close> here, since \<open>status\<close> is the field of \<open>Issue\<close>.
\<close>

record RAGClassificationResult =
  rag :: RAGStatus
  reason :: string
  confidence :: real

section \<open>Python string operations\<close>

definition lower_char :: "char \<Rightarrow> char" where
  "lower_char c =
     (case map_of (zip ''ABCDEFGHIJKLMNOPQRSTUVWXYZ'' ''abcdefghijklmnopqrstuvwxyz'') c of
        None \<Rightarrow> c | Some l \<Rightarrow> l)"

definition lower :: "string \<Rightarrow> string" where
  "lower s = map lower_char s"

text \<open>\<open>a in b\<close> on strings: \<open>a\<close> occurs in \<open>b\<close> as a contiguous run.\<close>

definition str_in :: "string \<Rightarrow> string \<Rightarrow> bool" where
  "str_in a b = sublist a b"

text \<open>\<open>str(n)\<close> for an integer, as an f-string prints it.\<close>

fun str_nat :: "nat \<Rightarrow> string" where
  "str_nat n =
     (if n < 10 then [''0123456789'' ! n]
      else str_nat (n div 10) @ [''0123456789'' ! (n mod 10)])"

declare str_nat.simps [simp del]

definition str_int :: "int \<Rightarrow> string" where
  "str_int k = (if k < 0 then CHR ''-'' # str_nat (nat (- k)) else str_nat (nat k))"

text \<open>\<open>sep.join(xs)\<close>.\<close>

fun join :: "string \<Rightarrow> string list \<Rightarrow> string" where
  "join sep [] = []"
| "join sep [x] = x"
| "join sep (x # y # ys) = x @ sep @ join sep (y # ys)"

section \<open>The classifier (jira_mcp_server/rag_classifier.py)\<close>

subsection \<open>The conditions of the RED rules, in source order\<close>

definition red_blocked :: "RAGConfig \<Rightarrow> Issue \<Rightarrow> bool" where
  "red_blocked config issue \<longleftrightarrow>
     is_blocked issue \<or>
     list_ex (\<lambda>s. str_in s (lower (name (status issue))))
       (map lower (blocked_statuses config))"

definition red_priority_overdue :: "RAGConfig \<Rightarrow> Issue \<Rightarrow> bool" where
  "red_priority_overdue config issue \<longleftrightarrow>
     priority issue \<in> set (red_priority_levels config) \<and>
     days_in_status issue \<noteq> None \<and>
     the (days_in_status issue) > yellow_max_days_in_status config"

definition critical_labels :: "string list" where
  "critical_labels = [''critical-blocker'', ''production-issue'', ''escalated'']"

definition found_critical_labels :: "Issue \<Rightarrow> string list" where
  "found_critical_labels issue =
     filter (\<lambda>label. list_ex (\<lambda>critical. str_in critical (lower label)) critical_labels)
       (labels issue)"

definition check_red_conditions :: "RAGConfig \<Rightarrow> Issue \<Rightarrow> RAGClassificationResult option" where
  "check_red_conditions config issue =
     (if red_blocked config issue then
        Some \<lparr>rag = RED,
              reason = ''Issue is in blocked status: '' @ name (status issue),
              confidence = 1\<rparr>
      else if red_priority_overdue config issue then
        Some \<lparr>rag = RED,
              reason = ''High priority issue ('' @ priority issue @ '') has been in ''
                @ name (status issue) @ '' for ''
                @ str_int (the (days_in_status issue)) @ '' days'',
              confidence = 1\<rparr>
      else if blockers issue \<noteq> [] then
        Some \<lparr>rag = RED,
              reason = ''Issue has '' @ str_nat (length (blockers issue))
                @ '' blocking dependencies'',
              confidence = 1\<rparr>
      else if found_critical_labels issue \<noteq> [] then
        Some \<lparr>rag = RED,
              reason = ''Issue has critical labels: ''
                @ join '', '' (found_critical_labels issue),
              confidence = 1\<rparr>
      else None)"

subsection \<open>The conditions of the AMBER rules, in source order\<close>

definition amber_age :: "RAGConfig \<Rightarrow> Issue \<Rightarrow> bool" where
  "amber_age config issue \<longleftrightarrow>
     (days_in_status issue \<noteq> None \<and>
      the (days_in_status issue) > green_max_days_in_status config) \<and>
     the (days_in_status issue) \<le> yellow_max_days_in_status config"

definition amber_priority :: "RAGConfig \<Rightarrow> Issue \<Rightarrow> bool" where
  "amber_priority config issue \<longleftrightarrow> priority issue \<in> set (red_priority_levels config)"

definition risk_labels :: "string list" where
  "risk_labels = [''risk'', ''concern'', ''dependency'', ''delayed'']"

definition found_risk_labels :: "Issue \<Rightarrow> string list" where
  "found_risk_labels issue =
     filter (\<lambda>label. list_ex (\<lambda>risk. str_in risk (lower label)) risk_labels)
       (labels issue)"

definition amber_unassigned :: "RAGConfig \<Rightarrow> Issue \<Rightarrow> bool" where
  "amber_unassigned config issue \<longleftrightarrow>
     assignee issue = None \<and>
     days_in_status issue \<noteq> None \<and>
     the (days_in_status issue) > green_max_days_in_status config"

definition development_statuses :: "string list" where
  "development_statuses = [''in progress'', ''development'', ''coding'', ''implementation'']"

definition amber_stalled :: "RAGConfig \<Rightarrow> Issue \<Rightarrow> bool" where
  "amber_stalled config issue \<longleftrightarrow>
     list_ex (\<lambda>dev_status. str_in dev_status (lower (name (status issue))))
       development_statuses \<and>
     days_in_status issue \<noteq> None \<and>
     the (days_in_status issue) > green_max_days_in_status config"

text \<open>
  In the source the age rule is a nested \<open>if\<close>: the outer test is "known and above the
  green threshold", the inner one "at most the yellow threshold"; when either fails,
  control falls through to the next rule. \<open>amber_age\<close> is their conjunction.
\<close>

definition check_amber_conditions :: "RAGConfig \<Rightarrow> Issue \<Rightarrow> RAGClassificationResult option" where
  "check_amber_conditions config issue =
     (if amber_age config issue then
        Some \<lparr>rag = AMBER,
              reason = ''Issue has been in '' @ name (status issue) @ '' for ''
                @ str_int (the (days_in_status issue)) @ '' days'',
              confidence = 1\<rparr>
      else if amber_priority config issue then
        Some \<lparr>rag = AMBER,
              reason = ''High priority issue ('' @ priority issue
                @ '') requires close monitoring'',
              confidence = 1\<rparr>
      else if found_risk_labels issue \<noteq> [] then
        Some \<lparr>rag = AMBER,
              reason = ''Issue has risk-related labels: ''
                @ join '', '' (found_risk_labels issue),
              confidence = 1\<rparr>
      else if amber_unassigned config issue then
        Some \<lparr>rag = AMBER,
              reason = ''Unassigned issue has been in '' @ name (status issue) @ '' for ''
                @ str_int (the (days_in_status issue)) @ '' days'',
              confidence = 1\<rparr>
      else if amber_stalled config issue then
        Some \<lparr>rag = AMBER,
              reason = ''Development issue has been in progress for ''
                @ str_int (the (days_in_status issue)) @ '' days'',
              confidence = 1\<rparr>
      else None)"

definition green_result :: RAGClassificationResult where
  "green_result =
     \<lparr>rag = GREEN,
      reason = ''Issue is progressing normally with no identified risks'',
      confidence = 1\<rparr>"

definition classify_issue :: "RAGConfig \<Rightarrow> Issue \<Rightarrow> RAGClassificationResult" where
  "classify_issue config issue =
     (case check_red_conditions config issue of
        Some red_result \<Rightarrow> red_result
      | None \<Rightarrow>
          (case check_amber_conditions config issue of
             Some amber_result \<Rightarrow> amber_result
           | None \<Rightarrow> green_result))"

subsection \<open>Batch classification\<close>

text \<open>
  \<open>classify_issues_batch\<close> works on whatever objects the list holds and writes the verdict
  into each of them. The declared type of an element is \<open>Issue\<close>; at run time an object
  may lack attributes (a model built without validation, whose required fields were never
  set), and it may refuse attribute assignment. A \<open>PyObject\<close> holds the attribute
  values, the names of the attributes the object lacks, and, when the object refuses
  assignment, the \<open>str\<close> of the exception the assignment raises. Reading an attribute the
  object lacks raises \<open>AttributeError\<close>; the value held for it is never looked at.
  An exception is represented by its \<open>str\<close>.
\<close>

record PyObject =
  attrs :: Issue
  lacks :: "string list"
  refuses :: "string option"

text \<open>An object of the declared type: every attribute is there, assignment works.\<close>

definition well_formed :: "Issue \<Rightarrow> PyObject" where
  "well_formed issue = \<lparr>attrs = issue, lacks = [], refuses = None\<rparr>"

text \<open>The \<open>str\<close> of the \<open>AttributeError\<close> for attribute \<open>n\<close>, quotes included.\<close>

definition no_attribute :: "string \<Rightarrow> string" where
  "no_attribute n =
     CHR 0x27 # ''Issue'' @ CHR 0x27 # '' object has no attribute '' @ CHR 0x27 # n @ [CHR 0x27]"

text \<open>
  The attributes \<open>classify_issue\<close> reads, in the order in which it reads them, up to the
  \<open>return\<close> it takes. \<open>is_blocked\<close> comes first; \<open>status\<close> is read by the \<open>any\<close> over a
  non-empty list of blocked statuses and by every reason that names the status;
  \<open>days_in_status\<close> is read by the overdue test only after the priority test has passed;
  an attribute read a second time is not listed again unless a branch reads it first.
  Each test of a branch uses only attributes listed before it.
\<close>

definition attribute_reads :: "RAGConfig \<Rightarrow> Issue \<Rightarrow> string list" where
  "attribute_reads config issue =
     ''is_blocked'' #
     (if is_blocked issue then [''status'']
      else
        (if blocked_statuses config = [] then [] else [''status'']) @
        (if red_blocked config issue then []
         else
           ''priority'' #
           (if priority issue \<in> set (red_priority_levels config)
            then [''days_in_status''] else []) @
           (if red_priority_overdue config issue then [''status'']
            else
              ''blockers'' #
              (if blockers issue \<noteq> [] then []
               else
                 ''labels'' #
                 (if found_critical_labels issue \<noteq> [] then []
                  else
                    ''days_in_status'' #
                    (if amber_age config issue then [''status'']
                     else if amber_priority config issue then []
                     else if found_risk_labels issue \<noteq> [] then []
                     else [''assignee'', ''status'']))))))"

text \<open>
  \<open>self.classify_issue(issue)\<close> on an object: it raises at the first attribute it reads
  that the object lacks, and returns the verdict otherwise.
\<close>

definition classify_object :: "RAGConfig \<Rightarrow> PyObject \<Rightarrow> string + RAGClassificationResult" where
  "classify_object config obj =
     (case find (\<lambda>n. n \<in> set (lacks obj)) (attribute_reads config (attrs obj)) of
        Some n \<Rightarrow> Inl (no_attribute n)
      | None \<Rightarrow> Inr (classify_issue config (attrs obj)))"

text \<open>
  The objects live in a store, a function from addresses to the current state of the
  object; the list handed to the batch is a list of addresses, so the same object may occur
  twice. The results dictionary is a map from issue keys to verdicts.
\<close>

type_synonym store = "nat \<Rightarrow> PyObject"

type_synonym results = "string \<rightharpoonup> RAGClassificationResult"

text \<open>\<open>issue.key\<close>.\<close>

definition get_key :: "PyObject \<Rightarrow> string + string" where
  "get_key obj =
     (if ''key'' \<in> set (lacks obj) then Inl (no_attribute ''key'') else Inr (key (attrs obj)))"

text \<open>The object with \<open>rag_status\<close> and \<open>rag_reason\<close> overwritten by a verdict.\<close>

definition write_verdict :: "PyObject \<Rightarrow> RAGClassificationResult \<Rightarrow> PyObject" where
  "write_verdict obj result =
     obj\<lparr>attrs := (attrs obj)\<lparr>rag_status := Some (rag result),
                               rag_reason := Some (reason result)\<rparr>\<rparr>"

text \<open>The two assignments \<open>issue.rag_status = ...; issue.rag_reason = ...\<close>.\<close>

definition assign_rag :: "PyObject \<Rightarrow> RAGClassificationResult \<Rightarrow> string + PyObject" where
  "assign_rag obj result =
     (case refuses obj of
        Some e \<Rightarrow> Inl e
      | None \<Rightarrow> Inr (write_verdict obj result))"

definition error_result :: "string \<Rightarrow> RAGClassificationResult" where
  "error_result e =
     \<lparr>rag = AMBER, reason = ''Classification error: '' @ e, confidence = 0\<rparr>"

text \<open>
  The \<open>try\<close> block: classify, store the verdict under the key, write it into the issue.
  It yields the exception it raised, if any, with the dictionary and the object as it left
  them. The callee \<open>self.classify_issue\<close> is a parameter \<open>clf\<close>: \<open>Inr\<close> of the verdict, or
  \<open>Inl\<close> of the exception it raises.
\<close>

definition try_body ::
  "(PyObject \<Rightarrow> string + RAGClassificationResult) \<Rightarrow> results \<Rightarrow> PyObject
     \<Rightarrow> string option \<times> results \<times> PyObject"
where
  "try_body clf results issue =
     (case clf issue of
        Inl e \<Rightarrow> (Some e, results, issue)
      | Inr result \<Rightarrow>
          (case get_key issue of
             Inl e \<Rightarrow> (Some e, results, issue)
           | Inr k \<Rightarrow>
               (case assign_rag issue result of
                  Inl e \<Rightarrow> (Some e, results(k \<mapsto> result), issue)
                | Inr issue1 \<Rightarrow> (None, results(k \<mapsto> result), issue1))))"

text \<open>
  The \<open>except\<close> block, for the caught exception \<open>e\<close>: it reads \<open>issue.key\<close> for the log
  line and for the dictionary, and assigns to the issue, outside any \<open>try\<close>; what it
  raises leaves the function.
\<close>

definition handler :: "string \<Rightarrow> results \<Rightarrow> PyObject \<Rightarrow> string + results \<times> PyObject" where
  "handler e results issue =
     (case get_key issue of
        Inl e1 \<Rightarrow> Inl e1
      | Inr k \<Rightarrow>
          (case assign_rag issue (error_result e) of
             Inl e1 \<Rightarrow> Inl e1
           | Inr issue1 \<Rightarrow> Inr (results(k \<mapsto> error_result e), issue1)))"

text \<open>
  One iteration, on the state of the loop: the dictionary, or the exception that has left
  the function, and the store. After an exception nothing more happens.
\<close>

definition batch_step ::
  "(PyObject \<Rightarrow> string + RAGClassificationResult) \<Rightarrow> nat
     \<Rightarrow> (string + results) \<times> store \<Rightarrow> (string + results) \<times> store"
where
  "batch_step clf a st =
     (case fst st of
        Inl raised \<Rightarrow> st
      | Inr results \<Rightarrow>
          (let h = snd st in
           case try_body clf results (h a) of
             (None, results1, issue1) \<Rightarrow> (Inr results1, h(a := issue1))
           | (Some e, results1, issue1) \<Rightarrow>
               (case handler e results1 issue1 of
                  Inl e1 \<Rightarrow> (Inl e1, h(a := issue1))
                | Inr (results2, issue2) \<Rightarrow> (Inr results2, h(a := issue2)))))"

definition classify_issues_batch_with ::
  "(PyObject \<Rightarrow> string + RAGClassificationResult) \<Rightarrow> nat list \<Rightarrow> store
     \<Rightarrow> (string + results) \<times> store"
where
  "classify_issues_batch_with clf issues h = fold (batch_step clf) issues (Inr Map.empty, h)"

text \<open>The batch: the returned dictionary, or the exception raised, and the store it leaves.\<close>

definition classify_issues_batch ::
  "RAGConfig \<Rightarrow> nat list \<Rightarrow> store \<Rightarrow> (string + results) \<times> store"
where
  "classify_issues_batch config issues h =
     classify_issues_batch_with (classify_object config) issues h"

subsection \<open>Summary helpers\<close>

record RAGSummary =
  total :: nat
  green :: nat
  amber :: nat
  red :: nat
  unclassified :: nat

definition summary_step :: "Issue \<Rightarrow> RAGSummary \<Rightarrow> RAGSummary" where
  "summary_step issue summary =
     (if rag_status issue = Some GREEN then summary\<lparr>green := green summary + 1\<rparr>
      else if rag_status issue = Some AMBER then summary\<lparr>amber := amber summary + 1\<rparr>
      else if rag_status issue = Some RED then summary\<lparr>red := red summary + 1\<rparr>
      else summary\<lparr>unclassified := unclassified summary + 1\<rparr>)"

definition get_rag_summary :: "Issue list \<Rightarrow> RAGSummary" where
  "get_rag_summary issues =
     fold summary_step issues
       \<lparr>total = length issues, green = 0, amber = 0, red = 0, unclassified = 0\<rparr>"

text \<open>
  The source divides two counts and compares the quotient with the literal 0.2 in binary
  floating point. The model computes with exact reals: the quotient of two counts below
  \<open>2 ^ 50\<close> rounds to a value above the double nearest to 0.2 exactly when it is above
  one fifth.
\<close>

definition get_overall_status :: "Issue list \<Rightarrow> RAGStatus" where
  "get_overall_status issues =
     (if issues = [] then GREEN
      else
        let summary = get_rag_summary issues in
        if red summary > 0 then RED
        else
          let amber_percentage =
                (if total summary > 0 then real (amber summary) / real (total summary) else 0)
          in if amber_percentage > 0.2 then AMBER else GREEN)"

section \<open>The report categorizer (jira_mcp_server/report_generator.py)\<close>

datatype py_error = TypeError | OverflowError

fun dt_le :: "datetime \<Rightarrow> datetime \<Rightarrow> py_error + bool" where
  "dt_le (Naive a) (Naive b) = Inr (a \<le> b)"
| "dt_le (Aware a) (Aware b) = Inr (a \<le> b)"
| "dt_le (Naive a) (Aware b) = Inl TypeError"
| "dt_le (Aware a) (Naive b) = Inl TypeError"

text \<open>The chained comparison \<open>lo <= x <= hi\<close>: the second test runs only if the first holds.\<close>

definition chained_le :: "datetime \<Rightarrow> datetime \<Rightarrow> datetime \<Rightarrow> py_error + bool" where
  "chained_le lo x hi =
     (case dt_le lo x of
        Inl e \<Rightarrow> Inl e
      | Inr b \<Rightarrow> if b then dt_le x hi else Inr False)"

definition in_progress_statuses :: "string list" where
  "in_progress_statuses =
     [''in progress'', ''development'', ''coding'', ''implementation'',
      ''in development'', ''work in progress'', ''doing'']"

definition was_started_this_week :: "Issue \<Rightarrow> datetime \<Rightarrow> datetime \<Rightarrow> py_error + bool" where
  "was_started_this_week issue week_start week_end =
     (let is_in_progress =
            list_ex (\<lambda>s. str_in s (lower (name (status issue)))) in_progress_statuses
      in case chained_le week_start (updated issue) week_end of
           Inl e \<Rightarrow> Inl e
         | Inr was_updated_this_week \<Rightarrow> Inr (is_in_progress \<and> was_updated_this_week))"

definition was_completed_this_week :: "Issue \<Rightarrow> datetime \<Rightarrow> datetime \<Rightarrow> py_error + bool" where
  "was_completed_this_week issue week_start week_end =
     (case resolved issue of
        None \<Rightarrow> Inr False
      | Some r \<Rightarrow> chained_le week_start r week_end)"

text \<open>
  \<open>WeeklyReportData\<close> without the \<open>report_week\<close> caption (two \<open>strftime\<close> renderings of
  the window) and without the manual sections, which the categorizer leaves empty.
\<close>

record WeeklyReportData =
  team_name :: string
  started_issues :: "Issue list"
  completed_issues :: "Issue list"
  blocked_issues :: "Issue list"
  at_risk_issues :: "Issue list"
  total_issues :: nat
  green_count :: nat
  amber_count :: nat
  red_count :: nat
  overall_rag_status :: RAGStatus

definition new_report_data :: "string \<Rightarrow> WeeklyReportData" where
  "new_report_data tn =
     \<lparr>team_name = tn, started_issues = [], completed_issues = [], blocked_issues = [],
      at_risk_issues = [], total_issues = 0, green_count = 0, amber_count = 0,
      red_count = 0, overall_rag_status = GREEN\<rparr>"

fun categorize_loop ::
  "Issue list \<Rightarrow> datetime \<Rightarrow> datetime \<Rightarrow> WeeklyReportData \<Rightarrow> py_error + WeeklyReportData"
where
  "categorize_loop [] week_start week_end report_data = Inr report_data"
| "categorize_loop (issue # rest) week_start week_end report_data =
     (case was_started_this_week issue week_start week_end of
        Inl e \<Rightarrow> Inl e
      | Inr started \<Rightarrow>
          (case was_completed_this_week issue week_start week_end of
             Inl e \<Rightarrow> Inl e
           | Inr completed \<Rightarrow>
               let d1 = (if started
                         then report_data\<lparr>started_issues := started_issues report_data @ [issue]\<rparr>
                         else report_data);
                   d2 = (if completed
                         then d1\<lparr>completed_issues := completed_issues d1 @ [issue]\<rparr>
                         else d1);
                   d3 = (if rag_status issue = Some RED
                         then d2\<lparr>blocked_issues := blocked_issues d2 @ [issue]\<rparr>
                         else if rag_status issue = Some AMBER
                         then d2\<lparr>at_risk_issues := at_risk_issues d2 @ [issue]\<rparr>
                         else d2)
               in categorize_loop rest week_start week_end d3))"

definition day_us :: int where
  "day_us = 86400000000"

text \<open>
  \<open>week_ending - timedelta(days=6)\<close> raises \<open>OverflowError\<close> below \<open>date.min\<close>, ordinal 1.
  The window runs from 00:00:00 of the first day to 23:59:59.999999 of the last.
  The amber test multiplies a count by the literal 0.3 in binary floating point; for
  counts below \<open>2 ^ 49\<close> the comparison with an integer is the exact one computed here.
\<close>

definition categorize_issues_for_report ::
  "string \<Rightarrow> Issue list \<Rightarrow> int \<Rightarrow> py_error + WeeklyReportData"
where
  "categorize_issues_for_report tn issues week_ending =
     (if week_ending - 6 < 1 then Inl OverflowError
      else
        let week_start = week_ending - 6;
            week_start_datetime = Naive (week_start * day_us);
            week_end_datetime = Naive (week_ending * day_us + (day_us - 1))
        in case categorize_loop issues week_start_datetime week_end_datetime
                  (new_report_data tn) of
             Inl e \<Rightarrow> Inl e
           | Inr report_data \<Rightarrow>
               let d1 = report_data\<lparr>total_issues := length issues\<rparr>;
                   d2 = d1\<lparr>green_count :=
                              length (filter (\<lambda>i. rag_status i = Some GREEN) issues)\<rparr>;
                   d3 = d2\<lparr>amber_count :=
                              length (filter (\<lambda>i. rag_status i = Some AMBER) issues)\<rparr>;
                   d4 = d3\<lparr>red_count :=
                              length (filter (\<lambda>i. rag_status i = Some RED) issues)\<rparr>
               in Inr (if red_count d4 > 0 then d4\<lparr>overall_rag_status := RED\<rparr>
                       else if real (amber_count d4) > real (green_count d4) * 0.3
                       then d4\<lparr>overall_rag_status := AMBER\<rparr>
                       else d4\<lparr>overall_rag_status := GREEN\<rparr>))"

section \<open>Notions used in the statements\<close>

text \<open>An issue whose timestamps are naive, as those of the window are.\<close>

fun is_naive :: "datetime \<Rightarrow> bool" where
  "is_naive (Naive t) = True"
| "is_naive (Aware t) = False"

definition naive_timestamps :: "Issue \<Rightarrow> bool" where
  "naive_timestamps issue \<longleftrightarrow>
     is_naive (updated issue) \<and>
     (case resolved issue of None \<Rightarrow> True | Some r \<Rightarrow> is_naive r)"

text \<open>
  The issue is resolved, and at a time within the seven days that end with \<open>week_ending\<close>,
  both ends included.
\<close>

definition resolved_in_window :: "int \<Rightarrow> Issue \<Rightarrow> bool" where
  "resolved_in_window week_ending issue \<longleftrightarrow>
     (case resolved issue of
        None \<Rightarrow> False
      | Some (Aware r) \<Rightarrow> False
      | Some (Naive r) \<Rightarrow>
          (week_ending - 6) * day_us \<le> r \<and> r \<le> week_ending * day_us + (day_us - 1))"

text \<open>The object has a key and takes assignments: the handler can record a verdict for it.\<close>

definition accepts_verdict :: "PyObject \<Rightarrow> bool" where
  "accepts_verdict obj \<longleftrightarrow> ''key'' \<notin> set (lacks obj) \<and> refuses obj = None"

text \<open>
  The verdict due to an object: the one its classification returns, or the degraded one
  when its classification raises.
\<close>

definition verdict ::
  "(PyObject \<Rightarrow> string + RAGClassificationResult) \<Rightarrow> PyObject \<Rightarrow> RAGClassificationResult"
where
  "verdict clf obj =
     (case clf obj of
        Inr result \<Rightarrow> result
      | Inl e \<Rightarrow> \<lparr>rag = AMBER, reason = ''Classification error: '' @ e, confidence = 0\<rparr>)"

text \<open>What the handler raises on an object that does not accept a verdict.\<close>

definition handler_raises :: "PyObject \<Rightarrow> string" where
  "handler_raises obj =
     (if ''key'' \<in> set (lacks obj) then no_attribute ''key'' else the (refuses obj))"

section \<open>Sample inputs\<close>

text \<open>The fixture of tests/test_rag_classifier.py: in progress for two days, medium priority.\<close>

definition sample_issue :: Issue where
  "sample_issue =
     \<lparr>key = ''TEST-123'',
      status = \<lparr>status_id = ''1'', name = ''In Progress'', category = ''indeterminate''\<rparr>,
      priority = ''Medium'',
      assignee = Some \<lparr>account_id = ''user1'', display_name = ''Test User''\<rparr>,
      updated = Naive (738000 * day_us),
      resolved = None,
      labels = [],
      blockers = [],
      rag_status = None,
      rag_reason = None,
      days_in_status = Some 2,
      is_blocked = False\<rparr>"

definition with_status_name :: "string \<Rightarrow> Issue \<Rightarrow> Issue" where
  "with_status_name n issue = issue\<lparr>status := (status issue)\<lparr>name := n\<rparr>\<rparr>"

text \<open>Variants of the fixture.\<close>

definition blocked_unassigned_issue :: Issue where
  "blocked_unassigned_issue =
     sample_issue\<lparr>assignee := None, days_in_status := Some 5, is_blocked := True\<rparr>"

definition fresh_high_issue :: Issue where
  "fresh_high_issue = sample_issue\<lparr>priority := ''High'', days_in_status := Some 1\<rparr>"

definition on_hold_issue :: Issue where
  "on_hold_issue = with_status_name ''On Hold'' sample_issue"

definition partially_blocked_issue :: Issue where
  "partially_blocked_issue = with_status_name ''Partially Blocked'' sample_issue"

definition undated_issue :: Issue where
  "undated_issue = sample_issue\<lparr>assignee := None, days_in_status := None\<rparr>"

definition old_review_issue :: Issue where
  "old_review_issue =
     (with_status_name ''Code Review'' sample_issue)\<lparr>days_in_status := Some 10\<rparr>"

definition amber_issue :: Issue where
  "amber_issue = sample_issue\<lparr>rag_status := Some AMBER\<rparr>"

definition green_issue :: Issue where
  "green_issue = sample_issue\<lparr>rag_status := Some GREEN\<rparr>"

text \<open>Two amber issues among nine.\<close>

definition amber_heavy_issues :: "Issue list" where
  "amber_heavy_issues = replicate 2 amber_issue @ replicate 7 green_issue"

text \<open>A RED issue in progress, resolved on the fourth day of the week that ends on day 738000.\<close>

definition scenario_E_issue :: Issue where
  "scenario_E_issue =
     sample_issue\<lparr>rag_status := Some RED, resolved := Some (Naive (737997 * day_us + 5))\<rparr>"

text \<open>
  An issue as \<open>jira_client.py\<close> parses it, its timestamps carrying a UTC offset: updated on
  the last day of the week that ends on day 738000, resolved on the fourth.
\<close>

definition jira_issue :: Issue where
  "jira_issue =
     sample_issue\<lparr>updated := Aware (738000 * day_us),
                  resolved := Some (Aware (737997 * day_us + 5))\<rparr>"

text \<open>
  A store of three objects, the second built without its priority; and the same store with
  the second object lacking its key as well.
\<close>

definition sample_objects :: store where
  "sample_objects a =
     (if a = 0 then well_formed (sample_issue\<lparr>key := ''TEST-0'', days_in_status := Some 1\<rparr>)
      else if a = 1
      then (well_formed (sample_issue\<lparr>key := ''TEST-1''\<rparr>))\<lparr>lacks := [''priority'']\<rparr>
      else well_formed (sample_issue\<lparr>key := ''TEST-2'', priority := ''Highest'',
             days_in_status := Some 10\<rparr>))"

definition keyless_objects :: store where
  "keyless_objects a =
     (if a = 1 then (sample_objects 1)\<lparr>lacks := [''key'', ''priority'']\<rparr> else sample_objects a)"

section \<open>Unfolding and evaluation\<close>

lemmas classifier_defs =
  classify_issue_def check_red_conditions_def check_amber_conditions_def green_result_def
  red_blocked_def red_priority_overdue_def found_critical_labels_def critical_labels_def
  amber_age_def amber_priority_def found_risk_labels_def risk_labels_def
  amber_unassigned_def amber_stalled_def development_statuses_def

lemmas eval_defs =
  RAGConfig_default_def sample_issue_def with_status_name_def
  str_in_def lower_def lower_char_def str_int_def sublist_code

section \<open>Rule precedence\<close>

lemma check_red_rag:
  "check_red_conditions config issue = Some r \<Longrightarrow> rag r = RED"
  by (auto simp: check_red_conditions_def split: if_splits)

lemma check_amber_rag:
  "check_amber_conditions config issue = Some r \<Longrightarrow> rag r = AMBER"
  by (auto simp: check_amber_conditions_def split: if_splits)

lemma check_red_Some_iff:
  "check_red_conditions config issue \<noteq> None \<longleftrightarrow>
     red_blocked config issue \<or> red_priority_overdue config issue \<or>
     blockers issue \<noteq> [] \<or> found_critical_labels issue \<noteq> []"
  by (simp add: check_red_conditions_def)

lemma classify_issue_red_iff:
  "rag (classify_issue config issue) = RED \<longleftrightarrow>
     red_blocked config issue \<or> red_priority_overdue config issue \<or>
     blockers issue \<noteq> [] \<or> found_critical_labels issue \<noteq> []"
proof (cases "check_red_conditions config issue")
  case None
  then have no_red: "\<not> (red_blocked config issue \<or> red_priority_overdue config issue \<or>
      blockers issue \<noteq> [] \<or> found_critical_labels issue \<noteq> [])"
    using check_red_Some_iff [of config issue] by simp
  have "rag (classify_issue config issue) \<noteq> RED"
    using None check_amber_rag [of config issue]
    by (cases "check_amber_conditions config issue")
      (simp_all add: classify_issue_def green_result_def)
  with no_red show ?thesis by blast
next
  case (Some r)
  then have "rag (classify_issue config issue) = RED"
    using check_red_rag [OF Some] by (simp add: classify_issue_def)
  moreover have "check_red_conditions config issue \<noteq> None"
    using Some by simp
  ultimately show ?thesis
    using check_red_Some_iff [of config issue] by blast
qed

lemma classify_issue_amber_if_priority:
  assumes "priority issue \<in> set (red_priority_levels config)"
    and "check_red_conditions config issue = None"
  shows "rag (classify_issue config issue) = AMBER"
  using assms
  by (simp add: classify_issue_def check_amber_conditions_def amber_priority_def)

text \<open>
  C1. Whenever one of the four RED conditions holds, the verdict is RED, whatever else is
  true of the issue; an issue flagged \<open>is_blocked\<close> is RED regardless of its priority,
  age, labels and assignee.
\<close>

theorem red_rules_take_precedence:
  assumes "is_blocked issue \<or> red_blocked config issue \<or> red_priority_overdue config issue \<or>
           blockers issue \<noteq> [] \<or> found_critical_labels issue \<noteq> []"
  shows "rag (classify_issue config issue) = RED"
  using assms classify_issue_red_iff [of config issue] by (auto simp: red_blocked_def)

text \<open>A blocked issue that also meets the AMBER age and unassigned rules.\<close>

theorem red_rules_take_precedence_witness:
  "is_blocked blocked_unassigned_issue \<and>
   amber_age RAGConfig_default blocked_unassigned_issue \<and>
   amber_unassigned RAGConfig_default blocked_unassigned_issue \<and>
   rag (classify_issue RAGConfig_default blocked_unassigned_issue) = RED"
proof -
  have b: "is_blocked blocked_unassigned_issue"
    by (simp add: blocked_unassigned_issue_def sample_issue_def)
  have "rag (classify_issue RAGConfig_default blocked_unassigned_issue) = RED"
    using red_rules_take_precedence [of blocked_unassigned_issue RAGConfig_default] b by simp
  moreover have "amber_age RAGConfig_default blocked_unassigned_issue"
    by (simp add: amber_age_def RAGConfig_default_def blocked_unassigned_issue_def
        sample_issue_def)
  moreover have "amber_unassigned RAGConfig_default blocked_unassigned_issue"
    by (simp add: amber_unassigned_def RAGConfig_default_def blocked_unassigned_issue_def
        sample_issue_def)
  ultimately show ?thesis using b by simp
qed

text \<open>
  C2. An issue whose priority is one of the red priority levels is never GREEN: it is RED
  when its age is known and above the yellow threshold or when another RED rule fires, and
  AMBER in every other case, a fresh or undated issue included.
\<close>

theorem high_priority_never_green:
  assumes "priority issue \<in> set (red_priority_levels config)"
  shows "rag (classify_issue config issue) =
           (if (days_in_status issue \<noteq> None \<and>
                the (days_in_status issue) > yellow_max_days_in_status config) \<or>
               red_blocked config issue \<or> blockers issue \<noteq> [] \<or>
               found_critical_labels issue \<noteq> []
            then RED else AMBER)"
proof (cases "check_red_conditions config issue")
  case None
  then have "rag (classify_issue config issue) = AMBER"
    using assms by (rule classify_issue_amber_if_priority [rotated])
  moreover have "\<not> (red_blocked config issue \<or> red_priority_overdue config issue \<or>
      blockers issue \<noteq> [] \<or> found_critical_labels issue \<noteq> [])"
    using None check_red_Some_iff [of config issue] by simp
  ultimately show ?thesis using assms by (auto simp: red_priority_overdue_def)
next
  case (Some r)
  then have "rag (classify_issue config issue) = RED"
    using check_red_rag [OF Some] by (simp add: classify_issue_def)
  moreover have "red_blocked config issue \<or> red_priority_overdue config issue \<or>
      blockers issue \<noteq> [] \<or> found_critical_labels issue \<noteq> []"
    using Some check_red_Some_iff [of config issue] by simp
  ultimately show ?thesis using assms by (auto simp: red_priority_overdue_def)
qed

text \<open>Priority High, one day in status: AMBER.\<close>

theorem high_priority_never_green_witness:
  "priority fresh_high_issue \<in> set (red_priority_levels RAGConfig_default) \<and>
   days_in_status fresh_high_issue = Some 1 \<and>
   rag (classify_issue RAGConfig_default fresh_high_issue) = AMBER"
proof -
  have p: "priority fresh_high_issue \<in> set (red_priority_levels RAGConfig_default)"
    by (simp add: fresh_high_issue_def RAGConfig_default_def)
  have "rag (classify_issue RAGConfig_default fresh_high_issue) = AMBER"
    using high_priority_never_green [OF p]
    by (simp add: fresh_high_issue_def red_blocked_def found_critical_labels_def eval_defs)
  with p show ?thesis by (simp add: fresh_high_issue_def)
qed

text \<open>
  C3, as stated: the default blocked-status vocabulary is Blocked, Waiting, On Hold, and a
  status name containing "on hold" makes an issue RED under the default configuration.
  The default of \<open>RAGConfig\<close> has two entries, and the fixture moved to status On Hold
  is GREEN.
\<close>

theorem default_blocked_statuses_counterexample:
  "set (blocked_statuses RAGConfig_default) \<noteq> {''Blocked'', ''Waiting'', ''On Hold''} \<and>
   str_in (lower ''On Hold'') (lower (name (status on_hold_issue))) \<and>
   rag (classify_issue RAGConfig_default on_hold_issue) = GREEN"
proof -
  have "''On Hold'' \<notin> set (blocked_statuses RAGConfig_default)"
    by (simp add: RAGConfig_default_def)
  then have "set (blocked_statuses RAGConfig_default) \<noteq> {''Blocked'', ''Waiting'', ''On Hold''}"
    by blast
  moreover have "str_in (lower ''On Hold'') (lower (name (status on_hold_issue)))"
    by (simp add: on_hold_issue_def eval_defs)
  moreover have "rag (classify_issue RAGConfig_default on_hold_issue) = GREEN"
    by (simp add: on_hold_issue_def classifier_defs eval_defs)
  ultimately show ?thesis by simp
qed

text \<open>
  C3, amended: the default blocked-status vocabulary is Blocked, Waiting, and an issue whose
  status name contains "blocked" or "waiting", in any letter case, is RED under the default
  configuration.
\<close>

theorem default_blocked_statuses:
  "set (blocked_statuses RAGConfig_default) = {''Blocked'', ''Waiting''} \<and>
   (str_in (lower ''Blocked'') (lower (name (status issue))) \<or>
    str_in (lower ''Waiting'') (lower (name (status issue)))
    \<longrightarrow> rag (classify_issue RAGConfig_default issue) = RED)"
proof -
  have "red_blocked RAGConfig_default issue"
    if "str_in (lower ''Blocked'') (lower (name (status issue))) \<or>
        str_in (lower ''Waiting'') (lower (name (status issue)))"
    using that by (auto simp: red_blocked_def RAGConfig_default_def)
  then show ?thesis
    using classify_issue_red_iff [of RAGConfig_default issue]
    by (auto simp: RAGConfig_default_def)
qed

theorem default_blocked_statuses_witness:
  "str_in (lower ''Blocked'') (lower (name (status partially_blocked_issue))) \<and>
   rag (classify_issue RAGConfig_default partially_blocked_issue) = RED"
proof -
  have h: "str_in (lower ''Blocked'') (lower (name (status partially_blocked_issue)))"
    by (simp add: partially_blocked_issue_def eval_defs)
  then show ?thesis
    using default_blocked_statuses [of partially_blocked_issue] by blast
qed

text \<open>
  C4. When \<open>days_in_status\<close> is unknown, none of the day-threshold conditions holds (the
  high-priority-overdue rule, the age rule, the unassigned rule, the stalled-development
  rule), and the verdict is the one the age-independent rules give: blocked status,
  blockers, critical labels, high priority, risk labels, in this order, else GREEN.
\<close>

theorem unknown_age_fires_no_day_rule:
  assumes "days_in_status issue = None"
  shows "\<not> red_priority_overdue config issue \<and> \<not> amber_age config issue \<and>
         \<not> amber_unassigned config issue \<and> \<not> amber_stalled config issue \<and>
         classify_issue config issue =
           (if red_blocked config issue then
              \<lparr>rag = RED,
               reason = ''Issue is in blocked status: '' @ name (status issue),
               confidence = 1\<rparr>
            else if blockers issue \<noteq> [] then
              \<lparr>rag = RED,
               reason = ''Issue has '' @ str_nat (length (blockers issue))
                 @ '' blocking dependencies'',
               confidence = 1\<rparr>
            else if found_critical_labels issue \<noteq> [] then
              \<lparr>rag = RED,
               reason = ''Issue has critical labels: ''
                 @ join '', '' (found_critical_labels issue),
               confidence = 1\<rparr>
            else if priority issue \<in> set (red_priority_levels config) then
              \<lparr>rag = AMBER,
               reason = ''High priority issue ('' @ priority issue
                 @ '') requires close monitoring'',
               confidence = 1\<rparr>
            else if found_risk_labels issue \<noteq> [] then
              \<lparr>rag = AMBER,
               reason = ''Issue has risk-related labels: ''
                 @ join '', '' (found_risk_labels issue),
               confidence = 1\<rparr>
            else green_result)"
  using assms
  by (simp add: classify_issue_def check_red_conditions_def check_amber_conditions_def
      red_priority_overdue_def amber_age_def amber_unassigned_def amber_stalled_def
      amber_priority_def)

text \<open>An unassigned issue in progress whose age is unknown: GREEN.\<close>

theorem unknown_age_fires_no_day_rule_witness:
  "days_in_status undated_issue = None \<and> assignee undated_issue = None \<and>
   str_in ''in progress'' (lower (name (status undated_issue))) \<and>
   classify_issue RAGConfig_default undated_issue = green_result"
proof -
  have h: "days_in_status undated_issue = None"
    by (simp add: undated_issue_def)
  have "classify_issue RAGConfig_default undated_issue = green_result"
    using unknown_age_fires_no_day_rule [OF h, of RAGConfig_default]
    by (simp add: undated_issue_def red_blocked_def found_critical_labels_def
        found_risk_labels_def eval_defs)
  moreover have "str_in ''in progress'' (lower (name (status undated_issue)))"
    by (simp add: undated_issue_def eval_defs)
  ultimately show ?thesis by (simp add: undated_issue_def sample_issue_def)
qed

text \<open>
  C10. An issue older than the yellow threshold that is not blocked, has no blockers, no
  red priority, no critical or risk label, an assignee, and a status name without a
  development word is GREEN; the AMBER age condition does not hold for it.
\<close>

theorem age_beyond_yellow_alone_is_green:
  assumes "days_in_status issue = Some d"
    and "d > yellow_max_days_in_status config"
    and "\<not> is_blocked issue"
    and "\<not> list_ex (\<lambda>s. str_in s (lower (name (status issue))))
             (map lower (blocked_statuses config))"
    and "blockers issue = []"
    and "priority issue \<notin> set (red_priority_levels config)"
    and "found_critical_labels issue = []"
    and "found_risk_labels issue = []"
    and "assignee issue \<noteq> None"
    and "\<not> list_ex (\<lambda>dev_status. str_in dev_status (lower (name (status issue))))
             development_statuses"
  shows "classify_issue config issue = green_result \<and> \<not> amber_age config issue"
  using assms
  by (auto simp: classify_issue_def check_red_conditions_def check_amber_conditions_def
      red_blocked_def red_priority_overdue_def amber_age_def amber_unassigned_def
      amber_stalled_def amber_priority_def)

text \<open>Ten days in Code Review, medium priority, assigned: GREEN.\<close>

theorem age_beyond_yellow_alone_is_green_witness:
  "days_in_status old_review_issue = Some 10 \<and>
   10 > yellow_max_days_in_status RAGConfig_default \<and>
   classify_issue RAGConfig_default old_review_issue = green_result"
proof -
  have "classify_issue RAGConfig_default old_review_issue = green_result \<and>
        \<not> amber_age RAGConfig_default old_review_issue"
    by (rule age_beyond_yellow_alone_is_green [where d = 10])
      (simp_all add: old_review_issue_def found_critical_labels_def found_risk_labels_def
        development_statuses_def eval_defs)
  then show ?thesis
    by (simp add: old_review_issue_def RAGConfig_default_def)
qed

section \<open>Summary helpers: the overall status of a classified list\<close>

lemma fold_summary_total: "total (fold summary_step issues s) = total s"
  by (induction issues arbitrary: s) (simp_all add: summary_step_def)

lemma fold_summary_green:
  "green (fold summary_step issues s) = green s + length (filter (\<lambda>i. rag_status i = Some GREEN) issues)"
  by (induction issues arbitrary: s) (simp_all add: summary_step_def)

lemma fold_summary_amber:
  "amber (fold summary_step issues s) = amber s + length (filter (\<lambda>i. rag_status i = Some AMBER) issues)"
  by (induction issues arbitrary: s) (simp_all add: summary_step_def)

lemma fold_summary_red:
  "red (fold summary_step issues s) = red s + length (filter (\<lambda>i. rag_status i = Some RED) issues)"
  by (induction issues arbitrary: s) (simp_all add: summary_step_def)

lemma fold_summary_unclassified:
  "unclassified (fold summary_step issues s) =
     unclassified s + length (filter (\<lambda>i. rag_status i = None) issues)"
proof (induction issues arbitrary: s)
  case Nil
  then show ?case by simp
next
  case (Cons i issues)
  show ?case
  proof (cases "rag_status i")
    case None
    then show ?thesis using Cons by (simp add: summary_step_def)
  next
    case (Some c)
    then show ?thesis using Cons by (cases c) (simp_all add: summary_step_def)
  qed
qed

lemma filter_red_pos:
  "0 < length (filter (\<lambda>i. rag_status i = Some RED) issues) \<longleftrightarrow>
     (\<exists>i\<in>set issues. rag_status i = Some RED)"
  by (induction issues) auto

text \<open>
  C6. The overall status of the empty list is GREEN; of a non-empty list it is RED if some
  issue is RED, otherwise AMBER exactly when the number of AMBER issues divided by the
  number of all issues exceeds 0.2, and GREEN otherwise.
\<close>

theorem overall_status_of_classifier:
  "get_overall_status issues =
     (if issues = [] then GREEN
      else if \<exists>i\<in>set issues. rag_status i = Some RED then RED
      else if real (length (filter (\<lambda>i. rag_status i = Some AMBER) issues))
                / real (length issues) > 0.2 then AMBER
      else GREEN)"
proof (cases "issues = []")
  case True
  then show ?thesis by (simp add: get_overall_status_def)
next
  case False
  then have pos: "0 < length issues" by simp
  show ?thesis
    using False pos filter_red_pos [of issues]
    by (simp add: get_overall_status_def get_rag_summary_def Let_def
        fold_summary_total fold_summary_amber fold_summary_red)
qed

section \<open>The weekly report\<close>

lemma chained_le_naive:
  "chained_le (Naive a) (Naive x) (Naive b) = Inr (a \<le> x \<and> x \<le> b)"
  by (simp add: chained_le_def)

lemma chained_le_aware: "chained_le (Naive a) (Aware x) hi = Inl TypeError"
  by (simp add: chained_le_def)

lemma was_started_naive:
  "is_naive (updated issue) \<Longrightarrow>
     \<exists>b. was_started_this_week issue (Naive lo) (Naive hi) = Inr b"
  by (cases "updated issue") (simp_all add: was_started_this_week_def chained_le_naive)

lemma was_completed_window:
  assumes "naive_timestamps issue"
  shows "was_completed_this_week issue (Naive ((week_ending - 6) * day_us))
           (Naive (week_ending * day_us + (day_us - 1)))
         = Inr (resolved_in_window week_ending issue)"
proof (cases "resolved issue")
  case None
  then show ?thesis by (simp add: was_completed_this_week_def resolved_in_window_def)
next
  case (Some r)
  then show ?thesis using assms
    by (cases r)
      (simp_all add: was_completed_this_week_def resolved_in_window_def naive_timestamps_def
        chained_le_naive)
qed

lemma categorize_loop_completed:
  assumes "\<forall>i\<in>set issues. naive_timestamps i"
  shows "\<exists>rd'. categorize_loop issues (Naive ((week_ending - 6) * day_us))
                  (Naive (week_ending * day_us + (day_us - 1))) rd = Inr rd' \<and>
               completed_issues rd' =
                 completed_issues rd @ filter (resolved_in_window week_ending) issues"
  using assms
proof (induction issues arbitrary: rd)
  case Nil
  then show ?case by simp
next
  case (Cons i issues)
  from Cons.prems have ni: "naive_timestamps i" and rest: "\<forall>j\<in>set issues. naive_timestamps j"
    by simp_all
  from ni obtain b where st: "was_started_this_week i (Naive ((week_ending - 6) * day_us))
      (Naive (week_ending * day_us + (day_us - 1))) = Inr b"
    using was_started_naive [of i] by (auto simp: naive_timestamps_def)
  define d1 where "d1 = (if b then rd\<lparr>started_issues := started_issues rd @ [i]\<rparr> else rd)"
  define d2 where "d2 = (if resolved_in_window week_ending i
      then d1\<lparr>completed_issues := completed_issues d1 @ [i]\<rparr> else d1)"
  define d3 where "d3 = (if rag_status i = Some RED
      then d2\<lparr>blocked_issues := blocked_issues d2 @ [i]\<rparr>
      else if rag_status i = Some AMBER
      then d2\<lparr>at_risk_issues := at_risk_issues d2 @ [i]\<rparr> else d2)"
  have step: "categorize_loop (i # issues) (Naive ((week_ending - 6) * day_us))
      (Naive (week_ending * day_us + (day_us - 1))) rd =
    categorize_loop issues (Naive ((week_ending - 6) * day_us))
      (Naive (week_ending * day_us + (day_us - 1))) d3"
    using st was_completed_window [OF ni, of week_ending]
    by (simp add: Let_def d1_def d2_def d3_def)
  have comp: "completed_issues d3 =
      completed_issues rd @ filter (resolved_in_window week_ending) [i]"
    by (simp add: d1_def d2_def d3_def)
  from Cons.IH [OF rest, of d3] obtain rd' where
    "categorize_loop issues (Naive ((week_ending - 6) * day_us))
       (Naive (week_ending * day_us + (day_us - 1))) d3 = Inr rd'"
    "completed_issues rd' = completed_issues d3 @ filter (resolved_in_window week_ending) issues"
    by blast
  with step comp show ?case by simp
qed


lemma categorize_result:
  assumes "7 \<le> week_ending" and "\<forall>i\<in>set issues. naive_timestamps i"
  shows "\<exists>rd. categorize_issues_for_report tn issues week_ending = Inr rd \<and>
           completed_issues rd = filter (resolved_in_window week_ending) issues"
proof -
  from categorize_loop_completed [OF assms(2), of week_ending "new_report_data tn"]
  obtain rd' where
    loop: "categorize_loop issues (Naive ((week_ending - 6) * day_us))
       (Naive (week_ending * day_us + (day_us - 1))) (new_report_data tn) = Inr rd'"
    and comp: "completed_issues rd' = filter (resolved_in_window week_ending) issues"
    by (auto simp: new_report_data_def)
  show ?thesis
    using assms(1) loop comp
    by (simp add: categorize_issues_for_report_def Let_def)
qed

lemma categorize_loop_returns_naive:
  assumes "categorize_loop issues (Naive lo) (Naive hi) rd = Inr rd'"
  shows "\<forall>i\<in>set issues. naive_timestamps i"
  using assms
proof (induction issues arbitrary: rd)
  case Nil
  then show ?case by simp
next
  case (Cons i issues)
  from Cons.prems obtain b c where
    st: "was_started_this_week i (Naive lo) (Naive hi) = Inr b"
    and co: "was_completed_this_week i (Naive lo) (Naive hi) = Inr c"
    by (auto split: sum.splits)
  have u: "is_naive (updated i)"
    using st chained_le_aware [of lo _ "Naive hi"]
    by (cases "updated i") (auto simp: was_started_this_week_def)
  have r: "case resolved i of None \<Rightarrow> True | Some r \<Rightarrow> is_naive r"
  proof (cases "resolved i")
    case None
    then show ?thesis by simp
  next
    case (Some t)
    then show ?thesis
      using co chained_le_aware [of lo _ "Naive hi"]
      by (cases t) (auto simp: was_completed_this_week_def)
  qed
  from Cons.prems obtain d where "categorize_loop issues (Naive lo) (Naive hi) d = Inr rd'"
    by (auto simp: st co Let_def)
  from Cons.IH [OF this] u r show ?case
    by (simp add: naive_timestamps_def)
qed

text \<open>The categorizer returns a report exactly on these inputs; on all others it raises.\<close>

lemma categorize_returns_iff:
  "(\<exists>rd. categorize_issues_for_report tn issues week_ending = Inr rd) \<longleftrightarrow>
     7 \<le> week_ending \<and> (\<forall>i\<in>set issues. naive_timestamps i)"
proof
  assume "\<exists>rd. categorize_issues_for_report tn issues week_ending = Inr rd"
  then obtain rd where rd: "categorize_issues_for_report tn issues week_ending = Inr rd" ..
  then have w: "7 \<le> week_ending"
    by (simp add: categorize_issues_for_report_def split: if_splits)
  from rd w obtain rd' where "categorize_loop issues (Naive ((week_ending - 6) * day_us))
      (Naive (week_ending * day_us + (day_us - 1))) (new_report_data tn) = Inr rd'"
    by (auto simp: categorize_issues_for_report_def Let_def split: sum.splits)
  from categorize_loop_returns_naive [OF this] w
  show "7 \<le> week_ending \<and> (\<forall>i\<in>set issues. naive_timestamps i)" by simp
next
  assume "7 \<le> week_ending \<and> (\<forall>i\<in>set issues. naive_timestamps i)"
  then show "\<exists>rd. categorize_issues_for_report tn issues week_ending = Inr rd"
    using categorize_result [of week_ending issues tn] by blast
qed

lemma categorize_counts:
  assumes "categorize_issues_for_report tn issues week_ending = Inr rd"
  shows "total_issues rd = length issues"
    and "green_count rd = length (filter (\<lambda>i. rag_status i = Some GREEN) issues)"
    and "amber_count rd = length (filter (\<lambda>i. rag_status i = Some AMBER) issues)"
    and "red_count rd = length (filter (\<lambda>i. rag_status i = Some RED) issues)"
    and "overall_rag_status rd =
           (if red_count rd > 0 then RED
            else if real (amber_count rd) > real (green_count rd) * 0.3 then AMBER
            else GREEN)"
  using assms
  by (auto simp: categorize_issues_for_report_def Let_def split: if_splits sum.splits)

lemma rag_partition:
  "length (filter (\<lambda>i. rag_status i = Some GREEN) issues)
   + length (filter (\<lambda>i. rag_status i = Some AMBER) issues)
   + length (filter (\<lambda>i. rag_status i = Some RED) issues)
   + length (filter (\<lambda>i. rag_status i = None) issues) = length issues"
proof (induction issues)
  case Nil
  then show ?case by simp
next
  case (Cons i issues)
  show ?case
  proof (cases "rag_status i")
    case None
    then show ?thesis using Cons by simp
  next
    case (Some c)
    then show ?thesis using Cons by (cases c) simp_all
  qed
qed


lemma naive_sample [simp]:
  "naive_timestamps amber_issue" "naive_timestamps green_issue"
  "naive_timestamps scenario_E_issue"
  by (simp_all add: naive_timestamps_def amber_issue_def green_issue_def
      scenario_E_issue_def sample_issue_def)

lemma overall_status_formulas_differ:
  assumes "7 \<le> week_ending"
  shows "\<exists>rd. categorize_issues_for_report tn amber_heavy_issues week_ending = Inr rd \<and>
           overall_rag_status rd = GREEN \<and> get_overall_status amber_heavy_issues = AMBER"
proof -
  have "\<forall>i\<in>set amber_heavy_issues. naive_timestamps i"
    by (auto simp: amber_heavy_issues_def)
  from categorize_result [OF assms this, of tn] obtain rd where
    rd: "categorize_issues_for_report tn amber_heavy_issues week_ending = Inr rd"
    by blast
  have g: "green_count rd = 7" and a: "amber_count rd = 2" and r: "red_count rd = 0"
    using categorize_counts(2-4) [OF rd]
    by (simp_all add: amber_heavy_issues_def amber_issue_def green_issue_def)
  have "overall_rag_status rd = GREEN"
    using categorize_counts(5) [OF rd] g a r by simp
  moreover have "get_overall_status amber_heavy_issues = AMBER"
    by (simp add: get_overall_status_def get_rag_summary_def Let_def
        fold_summary_total fold_summary_amber fold_summary_red)
      (simp add: amber_heavy_issues_def amber_issue_def green_issue_def)
  ultimately show ?thesis using rd by blast
qed

text \<open>
  C7. The overall status of a report is RED exactly when its red count is positive;
  otherwise it is AMBER exactly when the amber count exceeds 0.3 times the green count, and
  GREEN otherwise. With no red, one amber and no green issue the report is AMBER. The
  formula is not the one of the classifier's helper: some list gets two different overall
  statuses.
\<close>

theorem overall_status_of_categorizer:
  assumes "categorize_issues_for_report tn issues week_ending = Inr rd"
  shows "overall_rag_status rd =
           (if red_count rd > 0 then RED
            else if real (amber_count rd) > 0.3 * real (green_count rd) then AMBER
            else GREEN) \<and>
         (red_count rd = 0 \<and> amber_count rd = 1 \<and> green_count rd = 0
            \<longrightarrow> overall_rag_status rd = AMBER) \<and>
         (\<exists>issues' rd'. categorize_issues_for_report tn issues' week_ending = Inr rd' \<and>
            overall_rag_status rd' \<noteq> get_overall_status issues')"
proof -
  have f: "overall_rag_status rd =
           (if red_count rd > 0 then RED
            else if real (amber_count rd) > 0.3 * real (green_count rd) then AMBER
            else GREEN)"
    using categorize_counts(5) [OF assms] by (simp add: mult.commute)
  have "7 \<le> week_ending"
    using assms by (simp add: categorize_issues_for_report_def split: if_splits)
  from overall_status_formulas_differ [OF this, of tn]
  have "\<exists>issues' rd'. categorize_issues_for_report tn issues' week_ending = Inr rd' \<and>
            overall_rag_status rd' \<noteq> get_overall_status issues'"
    by force
  with f show ?thesis by simp
qed

text \<open>A single AMBER issue.\<close>

theorem overall_status_of_categorizer_witness:
  "\<exists>rd. categorize_issues_for_report ''Team'' [amber_issue] 738000 = Inr rd \<and>
     red_count rd = 0 \<and> amber_count rd = 1 \<and> green_count rd = 0 \<and>
     overall_rag_status rd = AMBER"
proof -
  from categorize_result [of 738000 "[amber_issue]" "''Team''"] obtain rd where
    rd: "categorize_issues_for_report ''Team'' [amber_issue] 738000 = Inr rd"
    by auto
  have c: "red_count rd = 0 \<and> amber_count rd = 1 \<and> green_count rd = 0"
    using categorize_counts(2-4) [OF rd] by (simp add: amber_issue_def)
  with overall_status_of_categorizer [OF rd] have "overall_rag_status rd = AMBER"
    by blast
  with rd c show ?thesis by blast
qed

text \<open>
  On naive timestamps, for a week ending on ordinal day 7 or later (the inputs on which the
  categorizer returns, by \<open>categorize_returns_iff\<close>), the report's completed bucket holds
  exactly the issues that are resolved within the window, both ends included, in input
  order, and its counts are taken over the whole input list: every issue counts once in
  the total and in at most one of the three colour counts, whatever buckets it is in.
\<close>

lemma naive_completed_bucket_and_counts:
  assumes "7 \<le> week_ending" and "\<forall>i\<in>set issues. naive_timestamps i"
  shows "\<exists>rd. categorize_issues_for_report tn issues week_ending = Inr rd \<and>
           completed_issues rd = filter (resolved_in_window week_ending) issues \<and>
           total_issues rd = length issues \<and>
           green_count rd = length (filter (\<lambda>i. rag_status i = Some GREEN) issues) \<and>
           amber_count rd = length (filter (\<lambda>i. rag_status i = Some AMBER) issues) \<and>
           red_count rd = length (filter (\<lambda>i. rag_status i = Some RED) issues) \<and>
           green_count rd + amber_count rd + red_count rd
             + length (filter (\<lambda>i. rag_status i = None) issues) = total_issues rd"
proof -
  from categorize_result [OF assms, of tn] obtain rd where
    rd: "categorize_issues_for_report tn issues week_ending = Inr rd"
    and comp: "completed_issues rd = filter (resolved_in_window week_ending) issues"
    by blast
  show ?thesis
    using rd comp categorize_counts(1-4) [OF rd] rag_partition [of issues]
    by simp
qed

text \<open>
  The RED issue resolved in the window is in the started, completed and blocked buckets and
  is counted once.
\<close>

lemma naive_scenario_E:
  "\<exists>rd. categorize_issues_for_report ''Team'' [scenario_E_issue, green_issue] 738000 = Inr rd \<and>
     completed_issues rd = [scenario_E_issue] \<and>
     started_issues rd = [scenario_E_issue, green_issue] \<and>
     blocked_issues rd = [scenario_E_issue] \<and>
     total_issues rd = 2 \<and> green_count rd = 1 \<and> amber_count rd = 0 \<and> red_count rd = 1"
proof -
  have w: "(7::int) \<le> 738000" by simp
  have n: "\<forall>i\<in>set [scenario_E_issue, green_issue]. naive_timestamps i" by simp
  from naive_completed_bucket_and_counts [OF w n, of "''Team''"] obtain rd where
    rd: "categorize_issues_for_report ''Team'' [scenario_E_issue, green_issue] 738000 = Inr rd"
    and comp: "completed_issues rd =
      filter (resolved_in_window 738000) [scenario_E_issue, green_issue]"
    and cnt: "total_issues rd = length [scenario_E_issue, green_issue]"
      "green_count rd = length (filter (\<lambda>i. rag_status i = Some GREEN) [scenario_E_issue, green_issue])"
      "amber_count rd = length (filter (\<lambda>i. rag_status i = Some AMBER) [scenario_E_issue, green_issue])"
      "red_count rd = length (filter (\<lambda>i. rag_status i = Some RED) [scenario_E_issue, green_issue])"
    by blast
  have "completed_issues rd = [scenario_E_issue]"
    using comp
    by (simp add: resolved_in_window_def scenario_E_issue_def green_issue_def
        sample_issue_def day_us_def)
  moreover have "started_issues rd = [scenario_E_issue, green_issue] \<and>
      blocked_issues rd = [scenario_E_issue]"
    using rd
    by (auto simp: categorize_issues_for_report_def was_started_this_week_def
        was_completed_this_week_def chained_le_def in_progress_statuses_def new_report_data_def
        scenario_E_issue_def green_issue_def Let_def day_us_def eval_defs)
  ultimately show ?thesis
    using rd cnt by (simp add: scenario_E_issue_def green_issue_def)
qed

text \<open>
  C8, at a failing input. The issue of \<open>jira_issue\<close> is resolved within the week that ends
  on day 738000, so the claim places it in the completed bucket and counts it once. Its
  timestamps carry an offset and the window is naive: the test of the completed bucket
  raises \<open>TypeError\<close>, and so does the categorizer, which returns no report.
\<close>

theorem aware_timestamps_raise:
  "resolved jira_issue = Some (Aware (737997 * day_us + 5)) \<and>
   (738000 - 6) * day_us \<le> 737997 * day_us + 5 \<and>
   737997 * day_us + 5 \<le> 738000 * day_us + (day_us - 1) \<and>
   was_completed_this_week jira_issue (Naive ((738000 - 6) * day_us))
     (Naive (738000 * day_us + (day_us - 1))) = Inl TypeError \<and>
   categorize_issues_for_report ''Team'' [jira_issue] 738000 = Inl TypeError"
  by (simp add: jira_issue_def categorize_issues_for_report_def was_started_this_week_def
      was_completed_this_week_def chained_le_def day_us_def Let_def)

section \<open>Batch classification\<close>

lemma batch_step_raised [simp]: "batch_step clf a (Inl x, h) = (Inl x, h)"
  by (simp add: batch_step_def)

lemma fold_batch_step_raised [simp]: "fold (batch_step clf) as (Inl x, h) = (Inl x, h)"
  by (induction as) simp_all

lemma batch_step_collapsed:
  "batch_step clf a (Inr res, h) =
     (if accepts_verdict (h a)
      then (Inr (res(key (attrs (h a)) \<mapsto> verdict clf (h a))),
            h(a := write_verdict (h a) (verdict clf (h a))))
      else (Inl (handler_raises (h a)), h))"
  by (cases "clf (h a)"; cases "refuses (h a)")
    (auto simp: batch_step_def try_body_def handler_def get_key_def assign_rag_def
      accepts_verdict_def verdict_def write_verdict_def handler_raises_def error_result_def
      Let_def)


lemma write_verdict_simps [simp]:
  "lacks (write_verdict obj v) = lacks obj"
  "refuses (write_verdict obj v) = refuses obj"
  "key (attrs (write_verdict obj v)) = key (attrs obj)"
  "rag_status (attrs (write_verdict obj v)) = Some (rag v)"
  "rag_reason (attrs (write_verdict obj v)) = Some (reason v)"
  "write_verdict (write_verdict obj v) w = write_verdict obj w"
  by (simp_all add: write_verdict_def)

lemma accepts_write_verdict [simp]:
  "accepts_verdict (write_verdict obj v) = accepts_verdict obj"
  "handler_raises (write_verdict obj v) = handler_raises obj"
  by (simp_all add: accepts_verdict_def handler_raises_def)

lemma conditions_ignore_rag [simp]:
  "red_blocked config (issue\<lparr>rag_status := s, rag_reason := r\<rparr>) = red_blocked config issue"
  "red_priority_overdue config (issue\<lparr>rag_status := s, rag_reason := r\<rparr>) =
     red_priority_overdue config issue"
  "found_critical_labels (issue\<lparr>rag_status := s, rag_reason := r\<rparr>) =
     found_critical_labels issue"
  "amber_age config (issue\<lparr>rag_status := s, rag_reason := r\<rparr>) = amber_age config issue"
  "amber_priority config (issue\<lparr>rag_status := s, rag_reason := r\<rparr>) =
     amber_priority config issue"
  "found_risk_labels (issue\<lparr>rag_status := s, rag_reason := r\<rparr>) = found_risk_labels issue"
  "amber_unassigned config (issue\<lparr>rag_status := s, rag_reason := r\<rparr>) =
     amber_unassigned config issue"
  "amber_stalled config (issue\<lparr>rag_status := s, rag_reason := r\<rparr>) =
     amber_stalled config issue"
  by (simp_all add: red_blocked_def red_priority_overdue_def found_critical_labels_def
      amber_age_def amber_priority_def found_risk_labels_def amber_unassigned_def
      amber_stalled_def)

lemma check_red_ignores_rag:
  "check_red_conditions config (issue\<lparr>rag_status := s, rag_reason := r\<rparr>) =
     check_red_conditions config issue"
  by (simp add: check_red_conditions_def)

lemma check_amber_ignores_rag:
  "check_amber_conditions config (issue\<lparr>rag_status := s, rag_reason := r\<rparr>) =
     check_amber_conditions config issue"
  by (simp add: check_amber_conditions_def)

lemma classify_issue_ignores_rag:
  "classify_issue config (issue\<lparr>rag_status := s, rag_reason := r\<rparr>) =
     classify_issue config issue"
  unfolding classify_issue_def check_red_ignores_rag check_amber_ignores_rag
  by (rule refl)

lemma attribute_reads_ignores_rag:
  "attribute_reads config (issue\<lparr>rag_status := s, rag_reason := r\<rparr>) =
     attribute_reads config issue"
  by (simp add: attribute_reads_def)

lemma classify_object_ignores_rag [simp]:
  "classify_object config (write_verdict obj v) = classify_object config obj"
  by (simp add: classify_object_def write_verdict_def
      attribute_reads_ignores_rag classify_issue_ignores_rag split: option.splits)

lemma classify_object_well_formed [simp]:
  "classify_object config (well_formed issue) = Inr (classify_issue config issue)"
  by (simp add: classify_object_def well_formed_def find_None_iff split: option.splits)

lemma fold_batch_step_closed_form:
  assumes ind: "\<And>obj v. clf (write_verdict obj v) = clf obj"
  shows "fold (batch_step clf) as (Inr res, h) =
     (case dropWhile (\<lambda>a. accepts_verdict (h a)) as of
        [] \<Rightarrow> Inr (fold (\<lambda>a m. m(key (attrs (h a)) \<mapsto> verdict clf (h a))) as res)
      | a # rest \<Rightarrow> Inl (handler_raises (h a)),
      \<lambda>b. if b \<in> set (takeWhile (\<lambda>a. accepts_verdict (h a)) as)
          then write_verdict (h b) (verdict clf (h b)) else h b)"
proof (induction as arbitrary: res h)
  case Nil
  then show ?case by simp
next
  case (Cons a as)
  show ?case
  proof (cases "accepts_verdict (h a)")
    case False
    then show ?thesis by (simp add: batch_step_collapsed)
  next
    case True
    define h1 where "h1 = h(a := write_verdict (h a) (verdict clf (h a)))"
    have v: "verdict clf (write_verdict obj w) = verdict clf obj" for obj w
      by (simp add: verdict_def ind)
    have same: "accepts_verdict (h1 b) = accepts_verdict (h b)"
      "handler_raises (h1 b) = handler_raises (h b)"
      "key (attrs (h1 b)) = key (attrs (h b))"
      "verdict clf (h1 b) = verdict clf (h b)" for b
      by (simp_all add: h1_def v)
    have step: "batch_step clf a (Inr res, h) =
        (Inr (res(key (attrs (h a)) \<mapsto> verdict clf (h a))), h1)"
      using True by (simp add: batch_step_collapsed h1_def)
    have heap: "(\<lambda>b. if b \<in> set (takeWhile (\<lambda>a. accepts_verdict (h a)) as)
          then write_verdict (h1 b) (verdict clf (h1 b)) else h1 b) =
        (\<lambda>b. if b \<in> set (takeWhile (\<lambda>a. accepts_verdict (h a)) (a # as))
          then write_verdict (h b) (verdict clf (h b)) else h b)"
      using True by (auto simp: h1_def v fun_eq_iff)
    show ?thesis
      using True heap by (simp add: step Cons.IH same cong: list.case_cong)
  qed
qed



lemma classify_issues_batch_closed_form:
  "classify_issues_batch config issues h =
     (case dropWhile (\<lambda>a. accepts_verdict (h a)) issues of
        [] \<Rightarrow> Inr (fold (\<lambda>a m. m(key (attrs (h a)) \<mapsto> verdict (classify_object config) (h a)))
                 issues Map.empty)
      | a # rest \<Rightarrow> Inl (handler_raises (h a)),
      \<lambda>b. if b \<in> set (takeWhile (\<lambda>a. accepts_verdict (h a)) issues)
          then write_verdict (h b) (verdict (classify_object config) (h b)) else h b)"
  by (simp add: classify_issues_batch_def classify_issues_batch_with_def
      fold_batch_step_closed_form)

text \<open>
  C5, amended. When every issue object in the list has a key and takes assignments, the
  batch returns: the dictionary holds, under each issue's key, the verdict due to the
  issue, and the store holds every listed issue with that verdict written into it. The
  verdict due to an issue whose classification raises with message \<open>e\<close> is AMBER with
  confidence 0 and the reason "Classification error: e", and its \<open>rag_status\<close> and
  \<open>rag_reason\<close> are set accordingly; every other issue carries the verdict its own
  classification returns.
\<close>

theorem batch_survives_raise:
  assumes "\<forall>a\<in>set issues. accepts_verdict (h a)"
  shows "classify_issues_batch config issues h =
           (Inr (fold (\<lambda>a m. m(key (attrs (h a)) \<mapsto> verdict (classify_object config) (h a)))
                   issues Map.empty),
            \<lambda>a. if a \<in> set issues
                then write_verdict (h a) (verdict (classify_object config) (h a))
                else h a) \<and>
         (\<forall>a\<in>set issues. \<forall>e. classify_object config (h a) = Inl e \<longrightarrow>
            rag_status (attrs (snd (classify_issues_batch config issues h) a)) = Some AMBER \<and>
            rag_reason (attrs (snd (classify_issues_batch config issues h) a)) =
              Some (''Classification error: '' @ e) \<and>
            verdict (classify_object config) (h a) =
              \<lparr>rag = AMBER, reason = ''Classification error: '' @ e, confidence = 0\<rparr>) \<and>
         (\<forall>a\<in>set issues. \<forall>r. classify_object config (h a) = Inr r \<longrightarrow>
            rag_status (attrs (snd (classify_issues_batch config issues h) a)) = Some (rag r) \<and>
            rag_reason (attrs (snd (classify_issues_batch config issues h) a)) =
              Some (reason r) \<and>
            verdict (classify_object config) (h a) = r)"
proof -
  have d: "dropWhile (\<lambda>a. accepts_verdict (h a)) issues = []"
    and t: "takeWhile (\<lambda>a. accepts_verdict (h a)) issues = issues"
    using assms by simp_all
  have closed: "classify_issues_batch config issues h =
           (Inr (fold (\<lambda>a m. m(key (attrs (h a)) \<mapsto> verdict (classify_object config) (h a)))
                   issues Map.empty),
            \<lambda>a. if a \<in> set issues
                then write_verdict (h a) (verdict (classify_object config) (h a))
                else h a)"
    by (simp add: classify_issues_batch_closed_form d t)
  show ?thesis
    by (simp add: closed verdict_def)
qed

text \<open>
  The second of three issues lacks its priority: its classification raises, it gets the
  degraded verdict, and the third issue is RED.
\<close>

theorem batch_survives_raise_witness:
  "accepts_verdict (sample_objects 0) \<and> accepts_verdict (sample_objects 1) \<and>
   accepts_verdict (sample_objects 2) \<and>
   classify_object RAGConfig_default (sample_objects 1) = Inl (no_attribute ''priority'') \<and>
   map (\<lambda>a. rag_status
          (attrs (snd (classify_issues_batch RAGConfig_default [0, 1, 2] sample_objects) a)))
     [0, 1, 2] = [Some GREEN, Some AMBER, Some RED] \<and>
   rag_reason (attrs (snd (classify_issues_batch RAGConfig_default [0, 1, 2] sample_objects) 1)) =
     Some (''Classification error: '' @ no_attribute ''priority'') \<and>
   (\<exists>m. fst (classify_issues_batch RAGConfig_default [0, 1, 2] sample_objects) = Inr m \<and>
      m ''TEST-1'' =
        Some \<lparr>rag = AMBER,
              reason = ''Classification error: '' @ no_attribute ''priority'',
              confidence = 0\<rparr>)"
proof -
  have acc: "\<forall>a\<in>set [0, 1, 2]. accepts_verdict (sample_objects a)"
    by (simp add: accepts_verdict_def sample_objects_def well_formed_def)
  have raises: "classify_object RAGConfig_default (sample_objects 1) =
      Inl (no_attribute ''priority'')"
    by (simp add: classify_object_def attribute_reads_def sample_objects_def well_formed_def
        red_blocked_def eval_defs)
  have c0: "classify_object RAGConfig_default (sample_objects 0) = Inr green_result"
    by (simp add: sample_objects_def classifier_defs eval_defs)
  have c2: "rag (verdict (classify_object RAGConfig_default) (sample_objects 2)) = RED"
    by (simp add: sample_objects_def verdict_def classifier_defs eval_defs str_nat.simps)
  have raises1: "classify_object RAGConfig_default (sample_objects (Suc 0)) =
      Inl (no_attribute ''priority'')"
    using raises by simp
  note b = batch_survives_raise [OF acc, of RAGConfig_default, THEN conjunct1]
  have "map (\<lambda>a. rag_status
          (attrs (snd (classify_issues_batch RAGConfig_default [0, 1, 2] sample_objects) a)))
     [0, 1, 2] = [Some GREEN, Some AMBER, Some RED]"
    by (simp only: b) (simp add: c2, simp add: verdict_def raises1 c0 green_result_def)
  moreover have "rag_reason
      (attrs (snd (classify_issues_batch RAGConfig_default [0, 1, 2] sample_objects) 1)) =
     Some (''Classification error: '' @ no_attribute ''priority'')"
    by (simp only: b) (simp add: verdict_def raises1)
  moreover have "\<exists>m. fst (classify_issues_batch RAGConfig_default [0, 1, 2] sample_objects) =
      Inr m \<and>
      m ''TEST-1'' =
        Some \<lparr>rag = AMBER,
              reason = ''Classification error: '' @ no_attribute ''priority'',
              confidence = 0\<rparr>"
  proof -
    have keys: "key (attrs (sample_objects 0)) = ''TEST-0''"
      "key (attrs (sample_objects (Suc 0))) = ''TEST-1''"
      "key (attrs (sample_objects 2)) = ''TEST-2''"
      by (simp_all add: sample_objects_def well_formed_def)
    have v1: "verdict (classify_object RAGConfig_default) (sample_objects (Suc 0)) =
        \<lparr>rag = AMBER,
         reason = ''Classification error: '' @ no_attribute ''priority'',
         confidence = 0\<rparr>"
      by (simp add: verdict_def raises1)
    show ?thesis
      by (simp only: b) (simp add: keys v1)
  qed
  ultimately show ?thesis using acc raises by simp
qed

text \<open>
  C5, as stated: whenever the classification of an issue raises, the issue gets the degraded
  verdict and the remaining issues are classified. The second of three issues lacks its
  priority and its key: its classification raises, the handler raises in turn when it reads
  the key, and the batch ends with that exception; the second issue has no verdict and the
  third is never classified.
\<close>

theorem batch_aborts_counterexample:
  "classify_object RAGConfig_default (keyless_objects 1) = Inl (no_attribute ''priority'') \<and>
   fst (classify_issues_batch RAGConfig_default [0, 1, 2] keyless_objects) =
     Inl (no_attribute ''key'') \<and>
   rag_status (attrs (snd (classify_issues_batch RAGConfig_default [0, 1, 2] keyless_objects) 1))
     = None \<and>
   rag_status (attrs (snd (classify_issues_batch RAGConfig_default [0, 1, 2] keyless_objects) 2))
     = None"
proof -
  have raises: "classify_object RAGConfig_default (keyless_objects 1) =
      Inl (no_attribute ''priority'')"
    by (simp add: classify_object_def attribute_reads_def keyless_objects_def sample_objects_def
        well_formed_def red_blocked_def eval_defs)
  have acc: "accepts_verdict (keyless_objects 0)" "\<not> accepts_verdict (keyless_objects 1)"
    by (simp_all add: accepts_verdict_def keyless_objects_def sample_objects_def well_formed_def)
  have d: "dropWhile (\<lambda>a. accepts_verdict (keyless_objects a)) [0, 1, 2] = [1, 2]"
    and t: "takeWhile (\<lambda>a. accepts_verdict (keyless_objects a)) [0, 1, 2] = [0]"
    using acc by simp_all
  have "classify_issues_batch RAGConfig_default [0, 1, 2] keyless_objects =
      (Inl (handler_raises (keyless_objects 1)),
       \<lambda>b. if b \<in> set [0]
          then write_verdict (keyless_objects b)
                 (verdict (classify_object RAGConfig_default) (keyless_objects b))
          else keyless_objects b)"
    by (simp only: classify_issues_batch_closed_form d t list.case)
  then show ?thesis
    using raises
    by (simp add: handler_raises_def keyless_objects_def sample_objects_def well_formed_def
        sample_issue_def)
qed

text \<open>
  C9. A second run of the batch on the store the first run left behind returns what the
  first run returned and leaves the store, hence every issue's status and reason, as the
  first run left it. On issues of the declared type the first run writes into each listed
  issue the status and the reason of its verdict. The classification of an issue does not
  depend on its \<open>rag_status\<close> and \<open>rag_reason\<close>.
\<close>

theorem classify_issues_batch_idempotent:
  "classify_issues_batch config issues (snd (classify_issues_batch config issues h)) =
     classify_issues_batch config issues h \<and>
   map (\<lambda>a. rag_status
          (attrs (snd (classify_issues_batch config issues (\<lambda>a. well_formed (t a))) a))) issues =
     map (\<lambda>a. Some (rag (classify_issue config (t a)))) issues \<and>
   map (\<lambda>a. rag_reason
          (attrs (snd (classify_issues_batch config issues (\<lambda>a. well_formed (t a))) a))) issues =
     map (\<lambda>a. Some (reason (classify_issue config (t a)))) issues \<and>
   classify_issue config (issue\<lparr>rag_status := s, rag_reason := r\<rparr>) =
     classify_issue config issue"
proof -
  define h1 where "h1 = snd (classify_issues_batch config issues h)"
  have h1: "h1 = (\<lambda>b. if b \<in> set (takeWhile (\<lambda>a. accepts_verdict (h a)) issues)
          then write_verdict (h b) (verdict (classify_object config) (h b)) else h b)"
    by (simp add: h1_def classify_issues_batch_closed_form)
  have v: "verdict (classify_object config) (write_verdict obj w) =
      verdict (classify_object config) obj" for obj w
    by (simp add: verdict_def)
  have same: "accepts_verdict (h1 b) = accepts_verdict (h b)"
    "handler_raises (h1 b) = handler_raises (h b)"
    "key (attrs (h1 b)) = key (attrs (h b))"
    "verdict (classify_object config) (h1 b) = verdict (classify_object config) (h b)" for b
    by (simp_all add: h1 v)
  have heap: "(\<lambda>b. if b \<in> set (takeWhile (\<lambda>a. accepts_verdict (h a)) issues)
          then write_verdict (h1 b) (verdict (classify_object config) (h1 b)) else h1 b) = h1"
    by (auto simp: h1 v fun_eq_iff)
  have idem: "classify_issues_batch config issues h1 = classify_issues_batch config issues h"
    by (simp add: classify_issues_batch_closed_form [of config issues h1] same heap
        classify_issues_batch_closed_form [of config issues h, folded h1] cong: list.case_cong)
  have wf: "dropWhile (\<lambda>a. accepts_verdict (well_formed (t a))) issues = []"
    "takeWhile (\<lambda>a. accepts_verdict (well_formed (t a))) issues = issues"
    by (simp_all add: accepts_verdict_def well_formed_def)
  have written:
    "map (\<lambda>a. rag_status
          (attrs (snd (classify_issues_batch config issues (\<lambda>a. well_formed (t a))) a))) issues =
     map (\<lambda>a. Some (rag (classify_issue config (t a)))) issues"
    "map (\<lambda>a. rag_reason
          (attrs (snd (classify_issues_batch config issues (\<lambda>a. well_formed (t a))) a))) issues =
     map (\<lambda>a. Some (reason (classify_issue config (t a)))) issues"
    by (simp_all add: classify_issues_batch_closed_form wf verdict_def)
  show ?thesis
    using idem written by (simp add: h1_def classify_issue_ignores_rag)
qed

end
